theory Spec2Isabelle
  imports Main
begin

section \<open>The AppStateWatcher of app\_state\_watcher.py\<close>

text \<open>
  The module defines one class, \<^verbatim>\<open>AppStateWatcher(param.Parameterized)\<close>, a singleton
  that holds the state of the app in its parameter \<^verbatim>\<open>state\<close> and refreshes it whenever
  the collaborator \<^verbatim>\<open>watch_app_state\<close> calls back. Everything the class touches is
  made explicit here: the process is a record (the environment, the class attribute
  \<^verbatim>\<open>_instance\<close>, a store of objects, and what the collaborators have seen), a method
  takes the process and returns its outcome together with the process after it, and an
  exception is the left summand of the outcome.
\<close>

subsection \<open>Values\<close>

text \<open>
  The payload \<^verbatim>\<open>_state\<close> of a snapshot is a plain Python value (a dict of the flow's
  variables, or \<^verbatim>\<open>None\<close> before anything was fetched). \<open>truthy\<close> is Python's
  \<^verbatim>\<open>bool()\<close> on such a value.
\<close>

datatype pyval = PyNone | PyInt int | PyStr string | PyDict "(string \<times> pyval) list"

fun truthy :: "pyval \<Rightarrow> bool" where
  "truthy PyNone = False"
| "truthy (PyInt i) = (i \<noteq> 0)"
| "truthy (PyStr s) = (s \<noteq> [])"
| "truthy (PyDict kvs) = (kvs \<noteq> [])"

text \<open>
  An \<^verbatim>\<open>AppState\<close> object. Its class is imported from
  \<^verbatim>\<open>lightning_app.utilities.state\<close> and is not part of the sources, so the model keeps
  the two things the watcher reads from it: the attribute \<^verbatim>\<open>_state\<close> (\<open>u_state\<close>), and
  the result of \<^verbatim>\<open>bool(obj)\<close> (\<open>as_bool\<close>), which the object's class decides.
\<close>

record AppState =
  u_state :: pyval
  as_bool :: bool

datatype exn =
    KeyError string
  | TypeError string
  | ValueError string
  | Exception string
  | ExternalError string

type_synonym ref = nat

text \<open>
  An instance of the class. \<open>state\<close>, \<open>allow_None\<close> and \<open>is_constant\<close> are the value and the
  two settings of the parameter \<^verbatim>\<open>state = param.ClassSelector(class_=AppState,
  constant=True)\<close>; \<open>initilized\<close> is \<^verbatim>\<open>hasattr(self, "_initilized")\<close> (the attribute
  is only ever set to \<^verbatim>\<open>True\<close>).
\<close>

record watcher_obj =
  name :: string
  state :: "AppState option"
  allow_None :: bool
  is_constant :: bool
  initilized :: bool

text \<open>
  What \<^verbatim>\<open>super().__new__(cls)\<close> returns: nothing is set on the object, so the parameter
  reads as its class-level declaration (default \<^verbatim>\<open>None\<close>, hence \<^verbatim>\<open>allow_None\<close>, and
  \<^verbatim>\<open>constant=True\<close>).
\<close>

definition blank :: watcher_obj where
  "blank = \<lparr>name = [], state = None, allow_None = True, is_constant = True, initilized = False\<rparr>"

subsection \<open>The process\<close>

text \<open>
  \<open>env\<close> is \<^verbatim>\<open>os.environ\<close>; \<open>remote\<close> is what the snapshot-fetch collaborator answers
  for a flow name at this moment (an exception, \<^verbatim>\<open>None\<close> or a snapshot);
  \<open>cls_instance\<close> is the class attribute \<^verbatim>\<open>AppStateWatcher._instance\<close>, \<open>None\<close> while
  \<^verbatim>\<open>hasattr(cls, "_instance")\<close> is false; \<open>heap\<close> maps a reference to its object, the
  references below \<open>next_ref\<close> being the ones allocated so far. The last four fields
  record what was observed from outside: the callbacks registered with
  \<^verbatim>\<open>watch_app_state\<close> (a bound method \<^verbatim>\<open>self._update_flow_state\<close> is represented by
  \<open>self\<close>), the arguments of the calls of \<^verbatim>\<open>get_flow_state\<close>, the change events that
  param sent to the dependents of \<^verbatim>\<open>state\<close> (object, old value, new value), and the
  debug messages of the logger.
\<close>

record world =
  env :: "string \<rightharpoonup> string"
  remote :: "string \<Rightarrow> exn + AppState option"
  cls_instance :: "ref option"
  heap :: "ref \<Rightarrow> watcher_obj"
  next_ref :: ref
  callbacks :: "ref list"
  fetch_calls :: "string list"
  events :: "(ref \<times> AppState option \<times> AppState option) list"
  debug_log :: "string list"

definition fresh_process :: "(string \<rightharpoonup> string) \<Rightarrow> (string \<Rightarrow> exn + AppState option) \<Rightarrow> world" where
  "fresh_process e rem =
     \<lparr>env = e, remote = rem, cls_instance = None, heap = (\<lambda>_. blank), next_ref = 0,
      callbacks = [], fetch_calls = [], events = [], debug_log = []\<rparr>"

definition update_obj :: "ref \<Rightarrow> (watcher_obj \<Rightarrow> watcher_obj) \<Rightarrow> world \<Rightarrow> world" where
  "update_obj r f w = w\<lparr>heap := (heap w)(r := f (heap w r))\<rparr>"

subsection \<open>The collaborators\<close>

text \<open>
  Modelled from the spec: \<^verbatim>\<open>watch_app_state\<close>, imported from a module that is not among
  the sources. The spec: "a change-notification registration function: accepts a
  zero-argument callback, invoked whenever remote state changes". Registration adds the
  callback to the registered ones.
\<close>

definition watch_app_state :: "ref \<Rightarrow> world \<Rightarrow> world" where
  "watch_app_state cb w = w\<lparr>callbacks := callbacks w @ [cb]\<rparr>"

text \<open>
  Modelled from the spec: \<^verbatim>\<open>get_flow_state\<close>, imported from a module that is not among
  the sources. The spec: "a snapshot-fetch function: given a target name, returns the
  current external state snapshot synchronously; may raise/fail if the target is
  unreachable or unnamed". A misconfigured or mocked collaborator may answer
  \<^verbatim>\<open>None\<close>. The call is recorded in \<open>fetch_calls\<close>.
\<close>

definition get_flow_state :: "string \<Rightarrow> world \<Rightarrow> (exn + AppState option) \<times> world" where
  "get_flow_state flow w = (remote w flow, w\<lparr>fetch_calls := fetch_calls w @ [flow]\<rparr>)"

subsection \<open>What the class uses of param\<close>

text \<open>
  The library param is imported, not part of the sources. The three definitions of this
  subsection are models of the library calls the class makes, written from what the
  specification says of the "external reactive framework" and from the library's
  behaviour; no line of the sources is behind them.
\<close>

text \<open>
  Modelled from the spec: \<^verbatim>\<open>Parameterized.__init__\<close> of the library param, called as
  \<^verbatim>\<open>super().__init__(name="singleton")\<close>. It sets the name and gives the instance its
  own parameters from the class declaration, so \<^verbatim>\<open>state\<close> has its default \<^verbatim>\<open>None\<close>
  again (the source's comment: "Its critical to initialize only once").
\<close>

definition param_init :: "ref \<Rightarrow> string \<Rightarrow> world \<Rightarrow> world" where
  "param_init self nm w =
     update_obj self (\<lambda>ob. ob\<lparr>name := nm, state := None, allow_None := True, is_constant := True\<rparr>) w"

text \<open>
  Modelled from the spec: the assignment \<^verbatim>\<open>self.state = v\<close> to a parameter of the
  library param ("assign to observable attribute, external reactive framework notifies
  any registered dependents"). The library validates the value first: a
  \<^verbatim>\<open>ClassSelector\<close> refuses \<^verbatim>\<open>None\<close> unless \<^verbatim>\<open>allow_None\<close> (\<^verbatim>\<open>ValueError\<close>). Then
  a constant parameter refuses the assignment (\<^verbatim>\<open>TypeError\<close>). Otherwise the value is
  stored, and the dependents of the parameter get one change event, unless the
  assignment puts \<^verbatim>\<open>None\<close> in the place of \<^verbatim>\<open>None\<close>: that is no change to the library.
  A snapshot object always counts as a change, also over an equal one, since the library
  does not compare objects of a class it does not know.
\<close>

definition param_set_state :: "ref \<Rightarrow> AppState option \<Rightarrow> world \<Rightarrow> (exn + unit) \<times> world" where
  "param_set_state self v w =
     (let ob = heap w self in
      if v = None \<and> \<not> allow_None ob
        then (Inl (ValueError ''ClassSelector parameter state value must be an instance of AppState''), w)
      else if is_constant ob
        then (Inl (TypeError ''Constant parameter state cannot be modified''), w)
      else (Inr (),
            (update_obj self (\<lambda>ob. ob\<lparr>state := v\<rparr>) w)
              \<lparr>events := events w @
                 (if state ob = None \<and> v = None then [] else [(self, state ob, v)])\<rparr>))"

text \<open>
  Modelled from the spec: the context manager \<^verbatim>\<open>param.edit_constant\<close> of the library
  param, used as \<^verbatim>\<open>with param.edit_constant(self): body\<close>. The constant flag is cleared
  for the body and put back afterwards, also when the body raises.
\<close>

definition edit_constant :: "ref \<Rightarrow> (world \<Rightarrow> (exn + unit) \<times> world) \<Rightarrow> world \<Rightarrow> (exn + unit) \<times> world" where
  "edit_constant self body w =
     (let c = is_constant (heap w self) in
      case body (update_obj self (\<lambda>ob. ob\<lparr>is_constant := False\<rparr>) w) of
        (res, w') \<Rightarrow> (res, update_obj self (\<lambda>ob. ob\<lparr>is_constant := c\<rparr>) w'))"

subsection \<open>The methods of AppStateWatcher\<close>

text \<open>
  \<^verbatim>\<open>
  def _get_flow_state(self) -> AppState:
      flow = os.environ["LIGHTNING_FLOW_NAME"]
      return get_flow_state(flow)
  \<close>
\<close>

definition u_get_flow_state :: "ref \<Rightarrow> world \<Rightarrow> (exn + AppState option) \<times> world" where
  "u_get_flow_state self w =
     (case env w ''LIGHTNING_FLOW_NAME'' of
        None \<Rightarrow> (Inl (KeyError ''LIGHTNING_FLOW_NAME''), w)
      | Some flow \<Rightarrow> get_flow_state flow w)"

text \<open>
  \<^verbatim>\<open>
  def _update_flow_state(self):
      with param.edit_constant(self):
          self.state = self._get_flow_state()
      _logger.debug("Request app state")
  \<close>
\<close>

definition u_update_flow_state :: "ref \<Rightarrow> world \<Rightarrow> (exn + unit) \<times> world" where
  "u_update_flow_state self w =
     (case edit_constant self
             (\<lambda>w1. case u_get_flow_state self w1 of
                      (Inl e, w2) \<Rightarrow> (Inl e, w2)
                    | (Inr v, w2) \<Rightarrow> param_set_state self v w2) w of
        (Inl e, w3) \<Rightarrow> (Inl e, w3)
      | (Inr _, w3) \<Rightarrow> (Inr (), w3\<lparr>debug_log := debug_log w3 @ [''Request app state'']\<rparr>))"

text \<open>
  \<^verbatim>\<open>
  def _start_watching(self):
      watch_app_state(self._update_flow_state)
      self._update_flow_state()
  \<close>
\<close>

definition u_start_watching :: "ref \<Rightarrow> world \<Rightarrow> (exn + unit) \<times> world" where
  "u_start_watching self w = u_update_flow_state self (watch_app_state self w)"

text \<open>
  \<^verbatim>\<open>
  def __new__(cls):
      if not hasattr(cls, "_instance"):
          cls._instance = super().__new__(cls)
      return cls._instance
  \<close>
\<close>

definition dunder_new :: "world \<Rightarrow> ref \<times> world" where
  "dunder_new w =
     (case cls_instance w of
        None \<Rightarrow>
          (next_ref w,
           w\<lparr>heap := (heap w)(next_ref w := blank), next_ref := Suc (next_ref w),
             cls_instance := Some (next_ref w)\<rparr>)
      | Some r \<Rightarrow> (r, w))"

text \<open>
  The guarded block of \<^verbatim>\<open>__init__\<close>:
  \<^verbatim>\<open>
  if not hasattr(self, "_initilized"):
      super().__init__(name="singleton")
      self._start_watching()
      self.param.state.allow_None = False
      self._initilized = True
  \<close>
\<close>

definition initialize_once :: "ref \<Rightarrow> world \<Rightarrow> (exn + unit) \<times> world" where
  "initialize_once self w =
     (if \<not> initilized (heap w self) then
        (case u_start_watching self (param_init self ''singleton'' w) of
           (Inl e, w1) \<Rightarrow> (Inl e, w1)
         | (Inr _, w1) \<Rightarrow>
             (Inr (), update_obj self (\<lambda>ob. ob\<lparr>allow_None := False, initilized := True\<rparr>) w1))
      else (Inr (), w))"

text \<open>
  The two checks that end \<^verbatim>\<open>__init__\<close>:
  \<^verbatim>\<open>
  if not self.state:
      raise Exception(".state has not been set.")
  if not self.state._state:
      raise Exception(".state._state has not been set.")
  \<close>
  \<^verbatim>\<open>not\<close> is Python's truth test: \<^verbatim>\<open>None\<close> is false, an object is what its class
  says, a dict is false when empty.
\<close>

definition check_state :: "AppState option \<Rightarrow> exn + unit" where
  "check_state st =
     (case st of
        None \<Rightarrow> Inl (Exception ''.state has not been set.'')
      | Some s \<Rightarrow>
          if \<not> as_bool s then Inl (Exception ''.state has not been set.'')
          else if \<not> truthy (u_state s) then Inl (Exception ''.state._state has not been set.'')
          else Inr ())"

text \<open>
  \<^verbatim>\<open>__init__\<close>. The decorator \<^verbatim>\<open>@requires("param")\<close> only checks that the module param
  can be imported, which the module's own \<^verbatim>\<open>import param\<close> has done before the class
  exists; it passes the call through.
\<close>

definition dunder_init :: "ref \<Rightarrow> world \<Rightarrow> (exn + unit) \<times> world" where
  "dunder_init self w =
     (case initialize_once self w of
        (Inl e, w1) \<Rightarrow> (Inl e, w1)
      | (Inr _, w1) \<Rightarrow> (check_state (state (heap w1 self)), w1))"

text \<open>
  The expression \<^verbatim>\<open>AppStateWatcher()\<close>: \<^verbatim>\<open>__new__\<close>, then \<^verbatim>\<open>__init__\<close> on the object
  it returned, and the object is the value unless \<^verbatim>\<open>__init__\<close> raised.
\<close>

definition AppStateWatcher_call :: "world \<Rightarrow> (exn + ref) \<times> world" where
  "AppStateWatcher_call w =
     (case dunder_new w of
        (r, w1) \<Rightarrow>
          (case dunder_init r w1 of
             (Inl e, w2) \<Rightarrow> (Inl e, w2)
           | (Inr _, w2) \<Rightarrow> (Inr r, w2)))"

subsection \<open>What can happen in a process\<close>

text \<open>
  Modelled from the spec: the notifier behind \<^verbatim>\<open>watch_app_state\<close>, which is not among
  the sources ("invoked whenever remote state changes"; "the refresh callback runs
  synchronously on whatever thread/loop the external notifier invokes it on"). A
  notification invokes every registered callback once, in the order of registration;
  what a callback raises is the notifier's to handle and does not stop the others.
\<close>

fun notify_all :: "ref list \<Rightarrow> world \<Rightarrow> world" where
  "notify_all [] w = w"
| "notify_all (cb # cbs) w = notify_all cbs (snd (u_update_flow_state cb w))"

text \<open>
  The operations of a process that touch the watcher: some code evaluates
  \<^verbatim>\<open>AppStateWatcher()\<close> (an exception is caught by the caller), the notifier fires, the
  environment variable is set or removed, the remote state changes.
\<close>

datatype op =
    Construct
  | Notify
  | Setenv string string
  | Unsetenv string
  | RemoteChange "string \<Rightarrow> exn + AppState option"

fun step :: "op \<Rightarrow> world \<Rightarrow> world" where
  "step Construct w = snd (AppStateWatcher_call w)"
| "step Notify w = notify_all (callbacks w) w"
| "step (Setenv k v) w = w\<lparr>env := (env w)(k \<mapsto> v)\<rparr>"
| "step (Unsetenv k) w = w\<lparr>env := (env w)(k := None)\<rparr>"
| "step (RemoteChange f) w = w\<lparr>remote := f\<rparr>"

fun run :: "op list \<Rightarrow> world \<Rightarrow> world" where
  "run [] w = w"
| "run (a # as) w = run as (step a w)"

subsection \<open>The scenario of the specification\<close>

text \<open>
  The environment names the flow \<^verbatim>\<open>my_flow\<close>, and the fetch answers the snapshot
  \<^verbatim>\<open>{counter: n}\<close> for that flow and fails for any other name.
\<close>

definition demo_env :: "string \<rightharpoonup> string" where
  "demo_env = [''LIGHTNING_FLOW_NAME'' \<mapsto> ''my_flow'']"

definition demo_snapshot :: "int \<Rightarrow> AppState" where
  "demo_snapshot n = \<lparr>u_state = PyDict [(''counter'', PyInt n)], as_bool = True\<rparr>"

definition demo_remote :: "int \<Rightarrow> string \<Rightarrow> exn + AppState option" where
  "demo_remote n flow =
     (if flow = ''my_flow'' then Inr (Some (demo_snapshot n))
      else Inl (ExternalError ''unknown flow''))"

definition demo_process :: world where
  "demo_process = fresh_process demo_env (demo_remote 1)"

text \<open>The process after its first \<^verbatim>\<open>AppStateWatcher()\<close>.\<close>

definition demo_watching :: world where
  "demo_watching = snd (AppStateWatcher_call demo_process)"

text \<open>
  A fetch that answers a snapshot whose payload is the empty dict; \<open>b\<close> is what
  \<^verbatim>\<open>bool()\<close> of that snapshot gives.
\<close>

definition empty_remote :: "bool \<Rightarrow> string \<Rightarrow> exn + AppState option" where
  "empty_remote b flow = Inr (Some \<lparr>u_state = PyDict [], as_bool = b\<rparr>)"

definition empty_process :: "bool \<Rightarrow> world" where
  "empty_process b = fresh_process demo_env (empty_remote b)"

text \<open>A process that starts without the environment variable.\<close>

definition unnamed_process :: world where
  "unnamed_process = fresh_process Map.empty (demo_remote 1)"

text \<open>A process whose flow cannot be reached: every fetch raises.\<close>

definition unreachable_process :: world where
  "unreachable_process = fresh_process demo_env (\<lambda>flow. Inl (ExternalError ''unreachable''))"

subsection \<open>Invariants\<close>

text \<open>
  \<open>sealed\<close>: an object that carries \<^verbatim>\<open>_initilized\<close> no longer allows \<^verbatim>\<open>None\<close> for
  its parameter. \<open>holds_state r\<close>: \<open>r\<close> is the cached instance, it is initialised and
  sealed, and it holds a snapshot. \<open>registered r cbs\<close>: \<open>r\<close> is the cached instance, it
  is initialised, and the registered callbacks are \<open>cbs\<close>.
\<close>

definition sealed :: "world \<Rightarrow> bool" where
  "sealed w \<longleftrightarrow> (\<forall>r. initilized (heap w r) \<longrightarrow> \<not> allow_None (heap w r))"

definition holds_state :: "ref \<Rightarrow> world \<Rightarrow> bool" where
  "holds_state r w \<longleftrightarrow> cls_instance w = Some r \<and> initilized (heap w r)
      \<and> \<not> allow_None (heap w r) \<and> state (heap w r) \<noteq> None"

definition registered :: "ref \<Rightarrow> ref list \<Rightarrow> world \<Rightarrow> bool" where
  "registered r cbs w \<longleftrightarrow> cls_instance w = Some r \<and> initilized (heap w r) \<and> callbacks w = cbs"

section \<open>Properties\<close>

subsection \<open>One refresh, in closed form\<close>

lemma u_update_flow_state_eq:
  "u_update_flow_state self w =
     (case env w ''LIGHTNING_FLOW_NAME'' of
        None \<Rightarrow> (Inl (KeyError ''LIGHTNING_FLOW_NAME''), w)
      | Some flow \<Rightarrow>
          (case remote w flow of
             Inl e \<Rightarrow> (Inl e, w\<lparr>fetch_calls := fetch_calls w @ [flow]\<rparr>)
           | Inr v \<Rightarrow>
               if v = None \<and> \<not> allow_None (heap w self)
               then (Inl (ValueError ''ClassSelector parameter state value must be an instance of AppState''),
                     w\<lparr>fetch_calls := fetch_calls w @ [flow]\<rparr>)
               else (Inr (),
                     w\<lparr>heap := (heap w)(self := (heap w self)\<lparr>state := v\<rparr>),
                       fetch_calls := fetch_calls w @ [flow],
                       events := events w @
                         (if state (heap w self) = None \<and> v = None then []
                          else [(self, state (heap w self), v)]),
                       debug_log := debug_log w @ [''Request app state'']\<rparr>)))"
  by (simp add: u_update_flow_state_def edit_constant_def u_get_flow_state_def get_flow_state_def
      param_set_state_def update_obj_def Let_def split: option.split sum.split)

lemma refresh_frame:
  "cls_instance (snd (u_update_flow_state cb w)) = cls_instance w"
  "next_ref (snd (u_update_flow_state cb w)) = next_ref w"
  "callbacks (snd (u_update_flow_state cb w)) = callbacks w"
  "env (snd (u_update_flow_state cb w)) = env w"
  "remote (snd (u_update_flow_state cb w)) = remote w"
  by (simp_all add: u_update_flow_state_eq split: option.split sum.split)

lemma refresh_obj:
  "initilized (heap (snd (u_update_flow_state cb w)) r) = initilized (heap w r)"
  "allow_None (heap (snd (u_update_flow_state cb w)) r) = allow_None (heap w r)"
  "is_constant (heap (snd (u_update_flow_state cb w)) r) = is_constant (heap w r)"
  "name (heap (snd (u_update_flow_state cb w)) r) = name (heap w r)"
  by (simp_all add: u_update_flow_state_eq split: option.split sum.split)

lemma refresh_keeps_state_set:
  "\<not> allow_None (heap w r) \<Longrightarrow> state (heap w r) \<noteq> None
     \<Longrightarrow> state (heap (snd (u_update_flow_state cb w)) r) \<noteq> None"
  by (auto simp add: u_update_flow_state_eq split: option.split sum.split)

lemma demo_process_simps:
  "env demo_process = demo_env"
  "remote demo_process = demo_remote 1"
  "cls_instance demo_process = None"
  "heap demo_process = (\<lambda>_. blank)"
  "next_ref demo_process = 0"
  "callbacks demo_process = []"
  "fetch_calls demo_process = []"
  "events demo_process = []"
  "debug_log demo_process = []"
  by (simp_all add: demo_process_def fresh_process_def)

subsection \<open>Refresh replaces the held state\<close>

text \<open>
  C1. Whenever the refresh callback \<^verbatim>\<open>_update_flow_state\<close> returns, the environment
  named a flow, the invocation made one call of \<^verbatim>\<open>get_flow_state\<close> for that flow, and
  the attribute \<^verbatim>\<open>state\<close> is exactly the value that call returned, whatever was held
  before: the old snapshot is replaced, not merged.
\<close>

theorem update_flow_state_holds_fetched:
  assumes "u_update_flow_state self w = (Inr u, w')"
  shows "\<exists>flow v. env w ''LIGHTNING_FLOW_NAME'' = Some flow
           \<and> fst (get_flow_state flow w) = Inr v
           \<and> fetch_calls w' = fetch_calls w @ [flow]
           \<and> state (heap w' self) = v"
  using assms
  by (auto simp add: u_update_flow_state_eq get_flow_state_def
      split: option.splits sum.splits if_splits)

theorem update_flow_state_holds_fetched_witness:
  "u_update_flow_state 0 demo_process = (Inr (), snd (u_update_flow_state 0 demo_process))
   \<and> fst (get_flow_state ''my_flow'' demo_process) = Inr (Some (demo_snapshot 1))
   \<and> state (heap (snd (u_update_flow_state 0 demo_process)) 0) = Some (demo_snapshot 1)"
proof -
  have h: "u_update_flow_state 0 demo_process = (Inr (), snd (u_update_flow_state 0 demo_process))"
    by (simp add: u_update_flow_state_eq demo_process_simps demo_env_def demo_remote_def blank_def)
  from update_flow_state_holds_fetched [OF h] h show ?thesis
    by (auto simp add: get_flow_state_def demo_process_simps demo_env_def demo_remote_def)
qed

subsection \<open>A missing flow name\<close>

text \<open>
  C4. If the environment variable \<^verbatim>\<open>LIGHTNING_FLOW_NAME\<close> is absent, every invocation of
  the refresh raises \<^verbatim>\<open>KeyError\<close> to its caller and leaves the process as it was: no
  call of \<^verbatim>\<open>get_flow_state\<close> is made under a default name, and the held state is
  untouched.
\<close>

theorem refresh_without_flow_name:
  assumes "env w ''LIGHTNING_FLOW_NAME'' = None"
  shows "u_update_flow_state self w = (Inl (KeyError ''LIGHTNING_FLOW_NAME''), w)"
  using assms by (simp add: u_update_flow_state_eq)

theorem refresh_without_flow_name_witness:
  "env (fresh_process Map.empty (demo_remote 1)) ''LIGHTNING_FLOW_NAME'' = None
   \<and> u_update_flow_state 0 (fresh_process Map.empty (demo_remote 1))
       = (Inl (KeyError ''LIGHTNING_FLOW_NAME''), fresh_process Map.empty (demo_remote 1))
   \<and> fetch_calls (snd (u_update_flow_state 0 (fresh_process Map.empty (demo_remote 1)))) = []"
proof -
  have h: "env (fresh_process Map.empty (demo_remote 1)) ''LIGHTNING_FLOW_NAME'' = None"
    by (simp add: fresh_process_def)
  from refresh_without_flow_name [OF h, of 0] h show ?thesis
    by (simp add: fresh_process_def)
qed

subsection \<open>Frames: what a method leaves alone\<close>

lemma refresh_heap_other:
  "r \<noteq> cb \<Longrightarrow> heap (snd (u_update_flow_state cb w)) r = heap w r"
  by (simp add: u_update_flow_state_eq split: option.split sum.split)

lemma notify_all_preserves:
  "(\<And>cb w. P w \<Longrightarrow> P (snd (u_update_flow_state cb w))) \<Longrightarrow> P w \<Longrightarrow> P (notify_all cbs w)"
  by (induction cbs arbitrary: w) simp_all

lemma run_preserves:
  "(\<And>a w. P w \<Longrightarrow> P (step a w)) \<Longrightarrow> P w \<Longrightarrow> P (run ops w)"
  by (induction ops arbitrary: w) simp_all

lemma dunder_new_cached: "cls_instance w = Some r \<Longrightarrow> dunder_new w = (r, w)"
  by (simp add: dunder_new_def)

lemma dunder_new_first:
  "cls_instance w = None \<Longrightarrow> dunder_new w =
      (next_ref w, w\<lparr>heap := (heap w)(next_ref w := blank), next_ref := Suc (next_ref w),
             cls_instance := Some (next_ref w)\<rparr>)"
  by (simp add: dunder_new_def)

lemma initialize_once_done:
  "initilized (heap w self) \<Longrightarrow> initialize_once self w = (Inr (), w)"
  by (simp add: initialize_once_def)

lemma start_watching_frame:
  "cls_instance (snd (u_start_watching self w)) = cls_instance w"
  "next_ref (snd (u_start_watching self w)) = next_ref w"
  "callbacks (snd (u_start_watching self w)) = callbacks w @ [self]"
  "env (snd (u_start_watching self w)) = env w"
  "remote (snd (u_start_watching self w)) = remote w"
  by (simp_all add: u_start_watching_def refresh_frame watch_app_state_def)

lemma start_watching_obj:
  "initilized (heap (snd (u_start_watching self w)) r) = initilized (heap w r)"
  "allow_None (heap (snd (u_start_watching self w)) r) = allow_None (heap w r)"
  by (simp_all add: u_start_watching_def refresh_obj watch_app_state_def)

lemma param_init_frame:
  "cls_instance (param_init self nm w) = cls_instance w"
  "next_ref (param_init self nm w) = next_ref w"
  "callbacks (param_init self nm w) = callbacks w"
  "env (param_init self nm w) = env w"
  "remote (param_init self nm w) = remote w"
  "fetch_calls (param_init self nm w) = fetch_calls w"
  "initilized (heap (param_init self nm w) r) = initilized (heap w r)"
  "r \<noteq> self \<Longrightarrow> heap (param_init self nm w) r = heap w r"
  by (simp_all add: param_init_def update_obj_def)

lemma initialize_once_frame:
  "cls_instance (snd (initialize_once self w)) = cls_instance w"
  "next_ref (snd (initialize_once self w)) = next_ref w"
  "env (snd (initialize_once self w)) = env w"
  "remote (snd (initialize_once self w)) = remote w"
  by (simp_all add: initialize_once_def update_obj_def split: prod.split sum.split,
      (metis snd_conv start_watching_frame param_init_frame)+)

lemma initialize_once_callbacks:
  "\<not> initilized (heap w self) \<Longrightarrow> callbacks (snd (initialize_once self w)) = callbacks w @ [self]"
  by (simp add: initialize_once_def update_obj_def split: prod.split sum.split)
     (metis snd_conv start_watching_frame(3) param_init_frame(3))

lemma initialize_once_fetch:
  "\<not> initilized (heap w self) \<Longrightarrow> env w ''LIGHTNING_FLOW_NAME'' = Some flow \<Longrightarrow>
     fetch_calls (snd (initialize_once self w)) = fetch_calls w @ [flow]"
  by (simp add: initialize_once_def update_obj_def u_start_watching_def watch_app_state_def
      param_init_def u_update_flow_state_eq split: prod.split sum.split)

lemma initialize_once_log:
  "\<not> initilized (heap w self) \<Longrightarrow> initilized (heap (snd (initialize_once self w)) self) \<Longrightarrow>
     debug_log (snd (initialize_once self w)) = debug_log w @ [''Request app state'']"
  by (auto simp add: initialize_once_def update_obj_def u_start_watching_def watch_app_state_def
      param_init_def u_update_flow_state_eq split: prod.splits sum.splits option.splits if_splits)

subsection \<open>The constructor call\<close>

lemma check_state_ok:
  "check_state st = Inr u \<longleftrightarrow> (\<exists>s. st = Some s \<and> as_bool s \<and> truthy (u_state s))"
  by (simp add: check_state_def split: option.split)

lemma call_unfold:
  "AppStateWatcher_call w =
     (case dunder_init (fst (dunder_new w)) (snd (dunder_new w)) of
        (Inl e, w2) \<Rightarrow> (Inl e, w2)
      | (Inr _, w2) \<Rightarrow> (Inr (fst (dunder_new w)), w2))"
  by (simp add: AppStateWatcher_call_def split_beta)

lemma call_world:
  "snd (AppStateWatcher_call w) = snd (initialize_once (fst (dunder_new w)) (snd (dunder_new w)))"
  by (simp add: AppStateWatcher_call_def dunder_init_def split: prod.split sum.split)

lemma call_on_initialized:
  "cls_instance w = Some r \<Longrightarrow> initilized (heap w r) \<Longrightarrow>
   AppStateWatcher_call w =
     (case check_state (state (heap w r)) of Inl e \<Rightarrow> Inl e | Inr _ \<Rightarrow> Inr r, w)"
  by (simp add: AppStateWatcher_call_def dunder_new_cached dunder_init_def initialize_once_done
      split: sum.split)

lemma call_noop:
  "cls_instance w = Some r \<Longrightarrow> initilized (heap w r) \<Longrightarrow> snd (AppStateWatcher_call w) = w"
  by (simp add: call_on_initialized)

lemma call_returns_cached:
  "AppStateWatcher_call w = (Inr r, w') \<Longrightarrow> r = fst (dunder_new w)"
  by (auto simp add: AppStateWatcher_call_def split: prod.splits sum.splits)

lemma call_cls_instance:
  "cls_instance (snd (AppStateWatcher_call w)) = Some (fst (dunder_new w))"
  by (cases "cls_instance w")
     (simp_all add: call_world initialize_once_frame dunder_new_cached dunder_new_first)

lemma call_keeps_instance:
  "cls_instance w = Some r \<Longrightarrow> cls_instance (snd (AppStateWatcher_call w)) = Some r
     \<and> next_ref (snd (AppStateWatcher_call w)) = next_ref w"
  by (simp add: call_world initialize_once_frame dunder_new_cached)

lemma first_call_world:
  "cls_instance w = None \<Longrightarrow>
   snd (AppStateWatcher_call w) =
     snd (initialize_once (next_ref w)
            (w\<lparr>heap := (heap w)(next_ref w := blank), next_ref := Suc (next_ref w),
               cls_instance := Some (next_ref w)\<rparr>))"
  by (simp add: call_world dunder_new_first)

lemma dunder_init_returns:
  "dunder_init self w = (Inr u, w') \<Longrightarrow>
     initilized (heap w' self) \<and> check_state (state (heap w' self)) = Inr ()"
  by (auto simp add: dunder_init_def initialize_once_def update_obj_def
      split: prod.splits sum.splits if_splits)

lemma call_returns:
  assumes "AppStateWatcher_call w = (Inr r, w')"
  shows "cls_instance w' = Some r \<and> initilized (heap w' r)
           \<and> check_state (state (heap w' r)) = Inr ()"
proof -
  have r: "r = fst (dunder_new w)" using assms by (rule call_returns_cached)
  have c: "cls_instance w' = Some r" using call_cls_instance [of w] assms r by simp
  have "dunder_init r (snd (dunder_new w)) = (Inr (), w')"
    using assms by (auto simp add: AppStateWatcher_call_def split: prod.splits sum.splits)
  from dunder_init_returns [OF this] c show ?thesis by simp
qed

lemma call_outcome:
  assumes "AppStateWatcher_call w = (res, w')" and "cls_instance w' = Some r"
    and "initilized (heap w' r)"
  shows "res = (case check_state (state (heap w' r)) of Inl e \<Rightarrow> Inl e | Inr _ \<Rightarrow> Inr r)"
proof -
  have r: "r = fst (dunder_new w)" using call_cls_instance [of w] assms(1,2) by simp
  obtain w0 where n: "dunder_new w = (r, w0)" using r by (cases "dunder_new w") simp
  show ?thesis
    using assms(1,3) n
    by (auto simp add: AppStateWatcher_call_def dunder_init_def initialize_once_def update_obj_def
        split: prod.splits sum.splits if_splits)
       (metis snd_conv start_watching_obj(1) param_init_frame(7))+
qed

subsection \<open>Evaluating the scenario\<close>

lemmas eval_defs = AppStateWatcher_call_def dunder_new_def dunder_init_def initialize_once_def
  check_state_def u_start_watching_def watch_app_state_def param_init_def update_obj_def
  u_update_flow_state_eq demo_process_simps demo_env_def demo_remote_def demo_snapshot_def
  blank_def fresh_process_def

lemma demo_first_call: "AppStateWatcher_call demo_process = (Inr 0, demo_watching)"
  by (simp add: demo_watching_def eval_defs)

lemma demo_watching_simps:
  "cls_instance demo_watching = Some 0"
  "next_ref demo_watching = Suc 0"
  "callbacks demo_watching = [0]"
  "fetch_calls demo_watching = [''my_flow'']"
  "state (heap demo_watching 0) = Some (demo_snapshot 1)"
  "initilized (heap demo_watching 0)"
  "\<not> allow_None (heap demo_watching 0)"
  "env demo_watching = demo_env"
  "remote demo_watching = demo_remote 1"
  "events demo_watching = [(0, None, Some (demo_snapshot 1))]"
  "debug_log demo_watching = [''Request app state'']"
  by (simp_all add: demo_watching_def eval_defs)

subsection \<open>The invariants hold along every run\<close>

lemma step_keeps_instance:
  "cls_instance w = Some r \<and> next_ref w = n
     \<Longrightarrow> cls_instance (step a w) = Some r \<and> next_ref (step a w) = n"
proof (cases a)
  case Construct
  assume "cls_instance w = Some r \<and> next_ref w = n"
  with Construct show ?thesis by (simp add: call_keeps_instance)
next
  case Notify
  assume h: "cls_instance w = Some r \<and> next_ref w = n"
  have "cls_instance (notify_all cbs w) = Some r \<and> next_ref (notify_all cbs w) = n" for cbs
    by (rule notify_all_preserves [where P = "\<lambda>w. cls_instance w = Some r \<and> next_ref w = n"])
       (simp_all add: refresh_frame h)
  with Notify show ?thesis by simp
qed simp_all

lemma run_keeps_instance:
  "cls_instance w = Some r \<and> next_ref w = n
     \<Longrightarrow> cls_instance (run ops w) = Some r \<and> next_ref (run ops w) = n"
  by (rule run_preserves [where P = "\<lambda>w. cls_instance w = Some r \<and> next_ref w = n"])
     (simp_all add: step_keeps_instance)

lemma sealed_fresh: "sealed (fresh_process e rem)"
  by (simp add: sealed_def fresh_process_def blank_def)

lemma sealed_refresh: "sealed w \<Longrightarrow> sealed (snd (u_update_flow_state cb w))"
  by (simp add: sealed_def refresh_obj)

lemma sealed_initialize_once: "sealed w \<Longrightarrow> sealed (snd (initialize_once self w))"
  unfolding sealed_def initialize_once_def
  by (auto simp add: update_obj_def split: prod.splits sum.splits if_splits)
     (metis snd_conv start_watching_obj param_init_frame(7,8))+

lemma sealed_new: "sealed w \<Longrightarrow> sealed (snd (dunder_new w))"
  by (cases "cls_instance w") (simp_all add: sealed_def dunder_new_def blank_def)

lemma sealed_step: "sealed w \<Longrightarrow> sealed (step a w)"
proof (cases a)
  case Construct
  assume "sealed w"
  with Construct show ?thesis by (simp add: call_world sealed_new sealed_initialize_once)
next
  case Notify
  assume "sealed w"
  then have "sealed (notify_all cbs w)" for cbs
    by (rule notify_all_preserves [where P = sealed, rotated]) (rule sealed_refresh)
  with Notify show ?thesis by simp
qed (simp_all add: sealed_def)

lemma sealed_run: "sealed w \<Longrightarrow> sealed (run ops w)"
  by (rule run_preserves [where P = sealed]) (simp_all add: sealed_step)

lemma holds_state_step: "holds_state r w \<Longrightarrow> holds_state r (step a w)"
proof (cases a)
  case Construct
  assume "holds_state r w"
  with Construct show ?thesis by (simp add: holds_state_def call_on_initialized)
next
  case Notify
  assume "holds_state r w"
  then have "holds_state r (notify_all cbs w)" for cbs
    by (rule notify_all_preserves [where P = "holds_state r", rotated])
       (simp add: holds_state_def refresh_frame refresh_obj refresh_keeps_state_set)
  with Notify show ?thesis by simp
qed (simp_all add: holds_state_def)

lemma holds_state_run: "holds_state r w \<Longrightarrow> holds_state r (run ops w)"
  by (rule run_preserves [where P = "holds_state r"]) (simp_all add: holds_state_step)

lemma registered_step: "registered r cbs w \<Longrightarrow> registered r cbs (step a w)"
proof (cases a)
  case Construct
  assume "registered r cbs w"
  with Construct show ?thesis by (simp add: registered_def call_noop)
next
  case Notify
  assume "registered r cbs w"
  then have "registered r cbs (notify_all l w)" for l
    by (rule notify_all_preserves [where P = "registered r cbs", rotated])
       (simp add: registered_def refresh_frame refresh_obj)
  with Notify show ?thesis by simp
qed (simp_all add: registered_def)

lemma registered_run: "registered r cbs w \<Longrightarrow> registered r cbs (run ops w)"
  by (rule run_preserves [where P = "registered r cbs"]) (simp_all add: registered_step)

subsection \<open>One instance\<close>

text \<open>
  C2. Any two calls \<^verbatim>\<open>AppStateWatcher()\<close> that return in one process, whatever happens
  between them, return the same object: the first of them leaves that object in
  \<^verbatim>\<open>_instance\<close> (constructing it if the class had none, returning the cached one
  otherwise), and the later call returns the cached object and constructs nothing. From
  the first call on, \<^verbatim>\<open>__new__\<close> always answers that object and changes nothing.
\<close>

theorem singleton_identity:
  assumes "AppStateWatcher_call w = (Inr r1, w1)"
    and "AppStateWatcher_call (run ops w1) = (Inr r2, w2)"
  shows "r2 = r1 \<and> cls_instance w1 = Some r1 \<and> next_ref w2 = next_ref w1
         \<and> (cls_instance w = None \<longrightarrow> r1 = next_ref w \<and> next_ref w1 = Suc (next_ref w))
         \<and> (cls_instance w \<noteq> None \<longrightarrow> cls_instance w = Some r1 \<and> next_ref w1 = next_ref w)
         \<and> (\<forall>ops'. dunder_new (run ops' w1) = (r1, run ops' w1))"
proof -
  have r1: "r1 = fst (dunder_new w)" using assms(1) by (rule call_returns_cached)
  have c1: "cls_instance w1 = Some r1"
    using call_cls_instance [of w] assms(1) r1 by simp
  have k: "cls_instance (run ops w1) = Some r1 \<and> next_ref (run ops w1) = next_ref w1"
    using c1 by (simp add: run_keeps_instance)
  have r2: "r2 = r1"
    using call_returns_cached [OF assms(2)] k by (simp add: dunder_new_cached)
  have n2: "next_ref w2 = next_ref w1"
    using call_keeps_instance [of "run ops w1" r1] k assms(2) by simp
  have w1: "w1 = snd (AppStateWatcher_call w)" using assms(1) by simp
  have first: "cls_instance w = None \<longrightarrow> r1 = next_ref w \<and> next_ref w1 = Suc (next_ref w)"
    by (simp add: r1 w1 call_world initialize_once_frame dunder_new_first)
  have later: "cls_instance w \<noteq> None \<longrightarrow> cls_instance w = Some r1 \<and> next_ref w1 = next_ref w"
    by (auto simp add: r1 w1 call_world initialize_once_frame dunder_new_cached)
  have cached: "\<forall>ops'. dunder_new (run ops' w1) = (r1, run ops' w1)"
    using c1 by (simp add: run_keeps_instance dunder_new_cached)
  from r2 c1 n2 first later cached show ?thesis by blast
qed

theorem singleton_identity_witness:
  "AppStateWatcher_call demo_process = (Inr 0, demo_watching)
   \<and> AppStateWatcher_call (run [RemoteChange (demo_remote 2), Notify] demo_watching)
       = (Inr 0, run [RemoteChange (demo_remote 2), Notify] demo_watching)
   \<and> cls_instance demo_watching = Some 0
   \<and> next_ref (run [RemoteChange (demo_remote 2), Notify] demo_watching) = next_ref demo_watching
   \<and> next_ref demo_watching = Suc (next_ref demo_process)"
proof -
  let ?w = "run [RemoteChange (demo_remote 2), Notify] demo_watching"
  have h2: "AppStateWatcher_call ?w = (Inr 0, ?w)"
    by (simp add: demo_watching_def eval_defs)
  have n: "cls_instance demo_process = None" by (simp add: demo_process_simps)
  from singleton_identity [OF demo_first_call h2] demo_first_call h2 n show ?thesis
    by simp
qed

subsection \<open>The held state is never None\<close>

text \<open>
  C3. In a process that started fresh, once a call \<^verbatim>\<open>AppStateWatcher()\<close> has returned
  (the initialization succeeded), the attribute \<^verbatim>\<open>state\<close> of the instance is not
  \<^verbatim>\<open>None\<close>, and it stays so after any further operations: constructor calls,
  notifications (refreshes that succeed, that fetch \<^verbatim>\<open>None\<close>, or that raise), and
  changes of the environment and of the remote state.
\<close>

theorem state_never_None_after_init:
  assumes "AppStateWatcher_call (run before (fresh_process e rem)) = (Inr r, w1)"
  shows "state (heap (run after w1) r) \<noteq> None"
proof -
  let ?w = "run before (fresh_process e rem)"
  have "sealed ?w" by (simp add: sealed_run sealed_fresh)
  then have "sealed (step Construct ?w)" by (rule sealed_step)
  then have s1: "sealed w1" using assms by simp
  from call_returns [OF assms]
  have c: "cls_instance w1 = Some r" "initilized (heap w1 r)"
    "check_state (state (heap w1 r)) = Inr ()" by simp_all
  from c(3) have "state (heap w1 r) \<noteq> None" by (auto simp add: check_state_ok)
  with c s1 have "holds_state r w1" by (simp add: holds_state_def sealed_def)
  then have "holds_state r (run after w1)" by (rule holds_state_run)
  then show ?thesis by (simp add: holds_state_def)
qed

theorem state_never_None_after_init_witness:
  "AppStateWatcher_call (run [] (fresh_process demo_env (demo_remote 1))) = (Inr 0, demo_watching)
   \<and> state (heap (run [RemoteChange (\<lambda>flow. Inr None), Notify,
                        Unsetenv ''LIGHTNING_FLOW_NAME'', Notify, Construct] demo_watching) 0)
       \<noteq> None"
proof -
  have h: "AppStateWatcher_call (run [] (fresh_process demo_env (demo_remote 1)))
             = (Inr 0, demo_watching)"
    using demo_first_call by (simp add: demo_process_def)
  from h state_never_None_after_init
         [OF h, of "[RemoteChange (\<lambda>flow. Inr None), Notify,
                     Unsetenv ''LIGHTNING_FLOW_NAME'', Notify, Construct]"]
  show ?thesis by (rule conjI)
qed

subsection \<open>What the constructor checks\<close>

text \<open>
  C5, as stated, fails: the fetch answers a snapshot whose payload is the empty dict.
  After the setup the snapshot is set and so is its payload (it is not \<^verbatim>\<open>None\<close>), and
  the constructor raises all the same, whichever truth value the snapshot object has.
\<close>

theorem constructor_raises_on_empty_payload:
  "fst (AppStateWatcher_call (empty_process True))
      = Inl (Exception ''.state._state has not been set.'')
   \<and> initilized (heap (snd (AppStateWatcher_call (empty_process True))) 0)
   \<and> state (heap (snd (AppStateWatcher_call (empty_process True))) 0)
        = Some \<lparr>u_state = PyDict [], as_bool = True\<rparr>
   \<and> fst (AppStateWatcher_call (empty_process False))
        = Inl (Exception ''.state has not been set.'')
   \<and> initilized (heap (snd (AppStateWatcher_call (empty_process False))) 0)
   \<and> state (heap (snd (AppStateWatcher_call (empty_process False))) 0)
        = Some \<lparr>u_state = PyDict [], as_bool = False\<rparr>
   \<and> PyDict [] \<noteq> PyNone"
  by (simp add: empty_process_def empty_remote_def AppStateWatcher_call_def dunder_new_def
      dunder_init_def initialize_once_def check_state_def u_start_watching_def
      watch_app_state_def param_init_def update_obj_def u_update_flow_state_eq demo_env_def
      blank_def fresh_process_def)

text \<open>
  C5, amended. When the setup is complete (done by this call or by an earlier one), the
  constructor returns the instance if and only if the held snapshot is truthy and its
  payload is truthy; in every other case (the snapshot or its payload unset, or set but
  false under Python's truth test) it raises the initialization error \<^verbatim>\<open>Exception\<close>.
\<close>

theorem constructor_raises_iff_falsy:
  assumes "AppStateWatcher_call w = (res, w')" and "cls_instance w' = Some r"
    and "initilized (heap w' r)"
  shows "(res = Inr r \<longleftrightarrow> (\<exists>s. state (heap w' r) = Some s \<and> as_bool s \<and> truthy (u_state s)))
       \<and> (res \<noteq> Inr r \<longrightarrow> (\<exists>msg. res = Inl (Exception msg)))"
  using call_outcome [OF assms]
  by (auto simp add: check_state_def split: option.splits if_splits)

theorem constructor_raises_iff_falsy_witness:
  "AppStateWatcher_call demo_process = (Inr 0, demo_watching)
   \<and> cls_instance demo_watching = Some 0
   \<and> initilized (heap demo_watching 0)
   \<and> (\<exists>s. state (heap demo_watching 0) = Some s \<and> as_bool s \<and> truthy (u_state s))"
proof -
  have c: "cls_instance demo_watching = Some 0" and i: "initilized (heap demo_watching 0)"
    by (simp_all add: demo_watching_simps)
  from constructor_raises_iff_falsy [OF demo_first_call c i] demo_first_call c i
  show ?thesis by simp
qed

text \<open>
  C9. Every constructor call whose setup is complete, also a repeated call on the
  initialised singleton (which changes nothing in the process), ends with the two
  checks, and the checks are truth tests: a snapshot that is set but falsy raises the
  same exception as \<^verbatim>\<open>None\<close>, and a payload that is falsy, set (an empty dict) or not
  (\<^verbatim>\<open>None\<close>), raises the exception of the second check.
\<close>

theorem validation_uses_truthiness:
  assumes "AppStateWatcher_call w = (res, w')" and "cls_instance w' = Some r"
    and "initilized (heap w' r)"
  shows "(state (heap w' r) = None \<longrightarrow> res = Inl (Exception ''.state has not been set.''))
       \<and> (\<forall>s. state (heap w' r) = Some s \<and> \<not> as_bool s \<longrightarrow>
             res = Inl (Exception ''.state has not been set.''))
       \<and> (\<forall>s. state (heap w' r) = Some s \<and> as_bool s \<and> \<not> truthy (u_state s) \<longrightarrow>
             res = Inl (Exception ''.state._state has not been set.''))
       \<and> (cls_instance w = Some r \<and> initilized (heap w r) \<longrightarrow> w' = w)"
proof -
  have "cls_instance w = Some r \<and> initilized (heap w r) \<longrightarrow> w' = w"
    using call_noop [of w r] assms(1) by auto
  with call_outcome [OF assms] show ?thesis
    by (auto simp add: check_state_def)
qed

theorem validation_uses_truthiness_witness:
  "AppStateWatcher_call (snd (AppStateWatcher_call (empty_process True)))
     = (Inl (Exception ''.state._state has not been set.''),
        snd (AppStateWatcher_call (empty_process True)))
   \<and> cls_instance (snd (AppStateWatcher_call (empty_process True))) = Some 0
   \<and> initilized (heap (snd (AppStateWatcher_call (empty_process True))) 0)
   \<and> state (heap (snd (AppStateWatcher_call (empty_process True))) 0)
        = Some \<lparr>u_state = PyDict [], as_bool = True\<rparr>"
proof -
  let ?w = "snd (AppStateWatcher_call (empty_process True))"
  have c: "cls_instance ?w = Some 0" and i: "initilized (heap ?w 0)"
    and s: "state (heap ?w 0) = Some \<lparr>u_state = PyDict [], as_bool = True\<rparr>"
    by (simp_all add: empty_process_def empty_remote_def eval_defs)
  obtain res w' where h: "AppStateWatcher_call ?w = (res, w')"
    by (cases "AppStateWatcher_call ?w")
  have w': "w' = ?w" using call_noop [OF c i] h by simp
  have c': "cls_instance w' = Some 0" and i': "initilized (heap w' 0)"
    using c i w' by simp_all
  from validation_uses_truthiness [OF h c' i'] s w'
  have "res = Inl (Exception ''.state._state has not been set.'')" by simp
  with h w' c i s show ?thesis by simp
qed

subsection \<open>Registration and the first refresh\<close>

text \<open>
  C6, as stated, fails: the sequence of registration and first refresh does not happen
  exactly once in every process. Where the first fetch raises, the first construction
  registers the callback and raises; once the flow can be reached, the next construction
  registers the callback a second time and fetches a second time.
\<close>

theorem setup_runs_twice_after_failed_fetch:
  "fst (AppStateWatcher_call unreachable_process) = Inl (ExternalError ''unreachable'')
   \<and> callbacks (run [Construct] unreachable_process) = [0]
   \<and> fetch_calls (run [Construct] unreachable_process) = [''my_flow'']
   \<and> fst (AppStateWatcher_call (run [Construct, RemoteChange (demo_remote 1)] unreachable_process))
        = Inr 0
   \<and> callbacks (run [Construct, RemoteChange (demo_remote 1), Construct] unreachable_process)
        = [0, 0]
   \<and> fetch_calls (run [Construct, RemoteChange (demo_remote 1), Construct] unreachable_process)
        = [''my_flow'', ''my_flow'']"
  by (simp add: unreachable_process_def AppStateWatcher_call_def dunder_new_def dunder_init_def
      initialize_once_def check_state_def u_start_watching_def watch_app_state_def
      param_init_def update_obj_def u_update_flow_state_eq demo_env_def demo_remote_def
      demo_snapshot_def blank_def fresh_process_def)

text \<open>
  C6, amended. The first construction (the class has no \<^verbatim>\<open>_instance\<close>) registers the
  refresh callback of the new object with \<^verbatim>\<open>watch_app_state\<close> once and performs one
  refresh before it returns: one call of \<^verbatim>\<open>get_flow_state\<close> for the flow the
  environment names and, when the setup completes, one debug message. Once a
  construction has completed the setup (the object carries \<^verbatim>\<open>_initilized\<close>), the
  sequence never runs again in the process: whatever happens, the registered callbacks
  stay the same, and a constructor call leaves the whole process as it is.
\<close>

theorem first_construction_registers_once:
  assumes "cls_instance w = None"
  shows "callbacks (snd (AppStateWatcher_call w)) = callbacks w @ [next_ref w]
       \<and> (\<forall>flow. env w ''LIGHTNING_FLOW_NAME'' = Some flow \<longrightarrow>
             fetch_calls (snd (AppStateWatcher_call w)) = fetch_calls w @ [flow])
       \<and> (initilized (heap (snd (AppStateWatcher_call w)) (next_ref w)) \<longrightarrow>
             debug_log (snd (AppStateWatcher_call w)) = debug_log w @ [''Request app state'']
           \<and> (\<forall>ops. callbacks (run ops (snd (AppStateWatcher_call w))) = callbacks w @ [next_ref w]
                  \<and> snd (AppStateWatcher_call (run ops (snd (AppStateWatcher_call w))))
                      = run ops (snd (AppStateWatcher_call w))))
       \<and> (\<forall>v r. cls_instance v = Some r \<and> initilized (heap v r) \<longrightarrow>
             (\<forall>ops. callbacks (run ops v) = callbacks v
                  \<and> snd (AppStateWatcher_call (run ops v)) = run ops v))"
proof -
  let ?r = "next_ref w"
  let ?w0 = "w\<lparr>heap := (heap w)(?r := blank), next_ref := Suc ?r, cls_instance := Some ?r\<rparr>"
  let ?w1 = "snd (AppStateWatcher_call w)"
  have w1: "?w1 = snd (initialize_once ?r ?w0)" using assms by (rule first_call_world)
  have fresh: "\<not> initilized (heap ?w0 ?r)" by (simp add: blank_def)
  have cb: "callbacks ?w1 = callbacks w @ [?r]"
    using initialize_once_callbacks [OF fresh] w1 by simp
  have fc: "\<forall>flow. env w ''LIGHTNING_FLOW_NAME'' = Some flow \<longrightarrow>
              fetch_calls ?w1 = fetch_calls w @ [flow]"
  proof (intro allI impI)
    fix flow assume "env w ''LIGHTNING_FLOW_NAME'' = Some flow"
    then have "env ?w0 ''LIGHTNING_FLOW_NAME'' = Some flow" by simp
    from initialize_once_fetch [OF fresh this] w1
    show "fetch_calls ?w1 = fetch_calls w @ [flow]" by simp
  qed
  have later: "debug_log ?w1 = debug_log w @ [''Request app state'']
      \<and> (\<forall>ops. callbacks (run ops ?w1) = callbacks w @ [?r]
             \<and> snd (AppStateWatcher_call (run ops ?w1)) = run ops ?w1)"
    if fin: "initilized (heap ?w1 ?r)"
  proof -
    have lg: "debug_log ?w1 = debug_log w @ [''Request app state'']"
      using initialize_once_log [OF fresh] fin w1 by simp
    have ci: "cls_instance ?w1 = Some ?r"
      using call_cls_instance [of w] assms by (simp add: dunder_new_first)
    have reg: "registered ?r (callbacks w @ [?r]) ?w1"
      using ci fin cb by (simp add: registered_def)
    have "callbacks (run ops ?w1) = callbacks w @ [?r]
             \<and> snd (AppStateWatcher_call (run ops ?w1)) = run ops ?w1" for ops
      using registered_run [OF reg, of ops] by (simp add: registered_def call_noop)
    with lg show ?thesis by blast
  qed
  have general: "callbacks (run ops v) = callbacks v
                   \<and> snd (AppStateWatcher_call (run ops v)) = run ops v"
    if "cls_instance v = Some r" and "initilized (heap v r)" for v r ops
  proof -
    from that have "registered r (callbacks v) v" by (simp add: registered_def)
    from registered_run [OF this, of ops] show ?thesis by (simp add: registered_def call_noop)
  qed
  from cb fc later general show ?thesis by blast
qed

theorem first_construction_registers_once_witness:
  "cls_instance demo_process = None
   \<and> callbacks demo_watching = [0]
   \<and> fetch_calls demo_watching = [''my_flow'']
   \<and> debug_log demo_watching = [''Request app state'']
   \<and> callbacks (run [Construct, RemoteChange (demo_remote 2), Notify, Construct] demo_watching) = [0]
   \<and> snd (AppStateWatcher_call
             (run [Construct, RemoteChange (demo_remote 2), Notify, Construct] demo_watching))
        = run [Construct, RemoteChange (demo_remote 2), Notify, Construct] demo_watching"
proof -
  let ?ops = "[Construct, RemoteChange (demo_remote 2), Notify, Construct]"
  have n: "cls_instance demo_process = None" by (simp add: demo_process_simps)
  have i: "initilized (heap (snd (AppStateWatcher_call demo_process)) (next_ref demo_process))"
    using demo_watching_simps(6) by (simp add: demo_watching_def demo_process_simps)
  note t = first_construction_registers_once [OF n]
  from t i have "callbacks (run ?ops (snd (AppStateWatcher_call demo_process)))
                   = callbacks demo_process @ [next_ref demo_process]
               \<and> snd (AppStateWatcher_call (run ?ops (snd (AppStateWatcher_call demo_process))))
                   = run ?ops (snd (AppStateWatcher_call demo_process))"
    by blast
  then have "callbacks (run ?ops demo_watching) = [0]
           \<and> snd (AppStateWatcher_call (run ?ops demo_watching)) = run ?ops demo_watching"
    by (simp add: demo_watching_def demo_process_simps)
  with n show ?thesis by (simp add: demo_watching_simps)
qed

subsection \<open>Every refresh notifies\<close>

text \<open>
  C7, as stated, fails: not every invocation of the refresh callback notifies. On the
  initialised instance of the scenario, with the environment variable removed, the
  callback raises \<^verbatim>\<open>KeyError\<close> before the assignment and the dependents get
  nothing; the same holds when the fetch itself raises.
\<close>

theorem refresh_without_notification:
  "initilized (heap demo_watching 0)
   \<and> fst (u_update_flow_state 0 (step (Unsetenv ''LIGHTNING_FLOW_NAME'') demo_watching))
        = Inl (KeyError ''LIGHTNING_FLOW_NAME'')
   \<and> events (snd (u_update_flow_state 0 (step (Unsetenv ''LIGHTNING_FLOW_NAME'') demo_watching)))
        = events demo_watching
   \<and> fst (u_update_flow_state 0
             (step (RemoteChange (\<lambda>flow. Inl (ExternalError ''unreachable''))) demo_watching))
        = Inl (ExternalError ''unreachable'')
   \<and> events (snd (u_update_flow_state 0
             (step (RemoteChange (\<lambda>flow. Inl (ExternalError ''unreachable''))) demo_watching)))
        = events demo_watching"
  by (simp add: u_update_flow_state_eq demo_watching_simps demo_env_def)

text \<open>
  C7, amended. Every invocation of the refresh callback in which a snapshot is fetched
  (the environment names a flow and \<^verbatim>\<open>get_flow_state\<close> answers a snapshot for it)
  returns and sends exactly one change event for \<^verbatim>\<open>state\<close> to the dependents, from the
  value held before to the fetched one. Nothing compares the two: the event is sent also
  when the fetched snapshot equals the held one. An invocation that raises sends none.
\<close>

theorem refresh_notifies_once:
  "(env w ''LIGHTNING_FLOW_NAME'' = Some flow \<and> remote w flow = Inr (Some s) \<longrightarrow>
      (\<exists>w'. u_update_flow_state self w = (Inr (), w')
           \<and> events w' = events w @ [(self, state (heap w self), Some s)]))
   \<and> (\<forall>e w'. u_update_flow_state self w = (Inl e, w') \<longrightarrow> events w' = events w)"
  by (auto simp add: u_update_flow_state_eq split: option.splits sum.splits if_splits)

theorem refresh_notifies_once_witness:
  "env demo_watching ''LIGHTNING_FLOW_NAME'' = Some ''my_flow''
   \<and> remote demo_watching ''my_flow'' = Inr (Some (demo_snapshot 1))
   \<and> state (heap demo_watching 0) = Some (demo_snapshot 1)
   \<and> fst (u_update_flow_state 0 demo_watching) = Inr ()
   \<and> events (snd (u_update_flow_state 0 demo_watching))
       = [(0, None, Some (demo_snapshot 1)), (0, Some (demo_snapshot 1), Some (demo_snapshot 1))]"
proof -
  have e: "env demo_watching ''LIGHTNING_FLOW_NAME'' = Some ''my_flow''"
    by (simp add: demo_watching_simps demo_env_def)
  have r: "remote demo_watching ''my_flow'' = Inr (Some (demo_snapshot 1))"
    by (simp add: demo_watching_simps demo_remote_def)
  from refresh_notifies_once [of demo_watching "''my_flow''" "demo_snapshot 1" 0] e r
  show ?thesis by (auto simp add: demo_watching_simps)
qed

text \<open>
  The case the amended statement leaves aside: while \<^verbatim>\<open>None\<close> is still allowed, a fetch
  that answers \<^verbatim>\<open>None\<close> over a held \<^verbatim>\<open>None\<close> returns and, being no change, sends no
  event.
\<close>

lemma refresh_None_over_None:
  assumes "env w ''LIGHTNING_FLOW_NAME'' = Some flow" and "remote w flow = Inr None"
    and "state (heap w self) = None" and "allow_None (heap w self)"
  shows "fst (u_update_flow_state self w) = Inr ()
       \<and> events (snd (u_update_flow_state self w)) = events w"
  using assms by (simp add: u_update_flow_state_eq)

subsection \<open>A setup that raises is retried\<close>

text \<open>
  C10. If, in the first construction, \<^verbatim>\<open>_start_watching\<close> raises, the constructor
  raises the same exception, the object stays cached in \<^verbatim>\<open>_instance\<close> with its
  callback registered, and \<^verbatim>\<open>_initilized\<close> is not set. A later constructor call that
  finds the cached object without the flag runs the whole initialization again: the
  callback is registered once more and a refresh fetches the state of the flow the
  environment then names.
\<close>

theorem failed_setup_is_retried:
  assumes "cls_instance w = None"
    and "AppStateWatcher_call w = (res, w1)"
    and "fst (u_start_watching (next_ref w)
               (param_init (next_ref w) ''singleton'' (snd (dunder_new w)))) = Inl e"
  shows "res = Inl e \<and> cls_instance w1 = Some (next_ref w) \<and> \<not> initilized (heap w1 (next_ref w))
       \<and> callbacks w1 = callbacks w @ [next_ref w]
       \<and> (\<forall>w2. cls_instance w2 = Some (next_ref w) \<and> \<not> initilized (heap w2 (next_ref w)) \<longrightarrow>
            callbacks (snd (AppStateWatcher_call w2)) = callbacks w2 @ [next_ref w]
          \<and> (\<forall>flow. env w2 ''LIGHTNING_FLOW_NAME'' = Some flow \<longrightarrow>
                fetch_calls (snd (AppStateWatcher_call w2)) = fetch_calls w2 @ [flow]))"
proof -
  let ?r = "next_ref w"
  let ?w0 = "snd (dunder_new w)"
  have n: "fst (dunder_new w) = ?r" using assms(1) by (simp add: dunder_new_first)
  have fresh: "\<not> initilized (heap ?w0 ?r)" using assms(1) by (simp add: dunder_new_first blank_def)
  obtain w' where sw: "u_start_watching ?r (param_init ?r ''singleton'' ?w0) = (Inl e, w')"
    using assms(3) by (cases "u_start_watching ?r (param_init ?r ''singleton'' ?w0)") simp
  have io: "initialize_once ?r ?w0 = (Inl e, w')"
    using fresh sw by (simp add: initialize_once_def)
  have call: "AppStateWatcher_call w = (Inl e, w')"
    using io n by (simp add: call_unfold dunder_init_def)
  with assms(2) have res: "res = Inl e" and w1: "w1 = w'" by simp_all
  have w'_eq: "w' = snd (u_start_watching ?r (param_init ?r ''singleton'' ?w0))" using sw by simp
  have ci: "cls_instance w1 = Some ?r"
    using assms(1) by (simp add: w1 w'_eq start_watching_frame param_init_frame dunder_new_first)
  have ni: "\<not> initilized (heap w1 ?r)"
    using fresh by (simp add: w1 w'_eq start_watching_obj param_init_frame)
  have cb: "callbacks w1 = callbacks w @ [?r]"
    using assms(1) by (simp add: w1 w'_eq start_watching_frame param_init_frame dunder_new_first)
  have again: "callbacks (snd (AppStateWatcher_call w2)) = callbacks w2 @ [?r]
          \<and> (\<forall>flow. env w2 ''LIGHTNING_FLOW_NAME'' = Some flow \<longrightarrow>
                fetch_calls (snd (AppStateWatcher_call w2)) = fetch_calls w2 @ [flow])"
    if c2: "cls_instance w2 = Some ?r" and n2: "\<not> initilized (heap w2 ?r)" for w2
  proof -
    have "snd (AppStateWatcher_call w2) = snd (initialize_once ?r w2)"
      using c2 by (simp add: call_world dunder_new_cached)
    with initialize_once_callbacks [OF n2] initialize_once_fetch [OF n2] show ?thesis by simp
  qed
  from res ci ni cb again show ?thesis by blast
qed

theorem failed_setup_is_retried_witness:
  "cls_instance unnamed_process = None
   \<and> AppStateWatcher_call unnamed_process
       = (Inl (KeyError ''LIGHTNING_FLOW_NAME''), snd (AppStateWatcher_call unnamed_process))
   \<and> fst (u_start_watching (next_ref unnamed_process)
             (param_init (next_ref unnamed_process) ''singleton'' (snd (dunder_new unnamed_process))))
       = Inl (KeyError ''LIGHTNING_FLOW_NAME'')
   \<and> \<not> initilized (heap (snd (AppStateWatcher_call unnamed_process)) 0)
   \<and> callbacks (snd (AppStateWatcher_call unnamed_process)) = [0]
   \<and> fst (AppStateWatcher_call
            (step (Setenv ''LIGHTNING_FLOW_NAME'' ''my_flow'') (snd (AppStateWatcher_call unnamed_process))))
       = Inr 0
   \<and> callbacks (snd (AppStateWatcher_call
            (step (Setenv ''LIGHTNING_FLOW_NAME'' ''my_flow'') (snd (AppStateWatcher_call unnamed_process)))))
       = [0, 0]
   \<and> fetch_calls (snd (AppStateWatcher_call
            (step (Setenv ''LIGHTNING_FLOW_NAME'' ''my_flow'') (snd (AppStateWatcher_call unnamed_process)))))
       = [''my_flow'']"
proof -
  let ?w1 = "snd (AppStateWatcher_call unnamed_process)"
  let ?w2 = "step (Setenv ''LIGHTNING_FLOW_NAME'' ''my_flow'') ?w1"
  have h1: "cls_instance unnamed_process = None"
    by (simp add: unnamed_process_def fresh_process_def)
  have h2: "AppStateWatcher_call unnamed_process = (Inl (KeyError ''LIGHTNING_FLOW_NAME''), ?w1)"
    by (simp add: unnamed_process_def eval_defs)
  have h3: "fst (u_start_watching (next_ref unnamed_process)
             (param_init (next_ref unnamed_process) ''singleton'' (snd (dunder_new unnamed_process))))
       = Inl (KeyError ''LIGHTNING_FLOW_NAME'')"
    by (simp add: unnamed_process_def eval_defs)
  have nr: "next_ref unnamed_process = 0" by (simp add: unnamed_process_def fresh_process_def)
  note t = failed_setup_is_retried [OF h1 h2 h3, unfolded nr]
  have c2: "cls_instance ?w2 = Some 0" and n2: "\<not> initilized (heap ?w2 0)"
    and e2: "env ?w2 ''LIGHTNING_FLOW_NAME'' = Some ''my_flow''"
    and f2: "fetch_calls ?w2 = []" and cb2: "callbacks ?w2 = [0]"
    by (simp_all add: unnamed_process_def eval_defs)
  from t c2 n2 have a: "callbacks (snd (AppStateWatcher_call ?w2)) = callbacks ?w2 @ [0]
      \<and> (\<forall>flow. env ?w2 ''LIGHTNING_FLOW_NAME'' = Some flow \<longrightarrow>
                fetch_calls (snd (AppStateWatcher_call ?w2)) = fetch_calls ?w2 @ [flow])"
    by blast
  with e2 f2 cb2 have b: "callbacks (snd (AppStateWatcher_call ?w2)) = [0, 0]"
    "fetch_calls (snd (AppStateWatcher_call ?w2)) = [''my_flow'']" by simp_all
  have r: "fst (AppStateWatcher_call ?w2) = Inr 0"
    by (simp add: unnamed_process_def eval_defs)
  from h1 h2 h3 t b r show ?thesis by simp
qed

end
